theory Spec2Isabelle
  imports Complex_Main "HOL-Library.Multiset" "HOL-Library.Option_ord"
begin

section \<open>The image search notebook (examples/image\_search/example.ipynb)\<close>

text \<open>
  The notebook is a sequence of cells run top to bottom. Each cell is embedded as a
  function on the state of the database (the one table \<open>image_search_test\<close>); a cell
  that can raise returns a sum, \<open>Inl\<close> carrying the error.

  Three things the notebook calls are not part of it and are taken as parameters:
  \<^item> \<open>model_img\<close>, \<open>model_txt\<close>: the pretrained model behind \<open>processor\<close> and
    \<open>model.get_image_features\<close> / \<open>model.get_text_features\<close>; \<open>None\<close> is an exception
    raised inside the model, \<open>Some fs\<close> the returned array, one row per list element;
  \<^item> \<open>metric\<close>: the engine's distance operator, a function from two vectors into a
    linearly ordered type of scores; what holds of every such function is proved of the
    parameter, and \<open>cosine_distance\<close> below is the operator the query cell names;
  \<^item> \<open>sim\<close>: the float expression \<open>round(1 - d, 3)\<close> of the display loop.
  The type \<open>'a\<close> stands for the float components of a vector.
\<close>

subsection \<open>Errors\<close>

text \<open>
  \<open>EncodingError\<close>: the model raised. \<open>StorageError\<close>: the database raised.
  \<open>IndexError\<close>: a Python subscript out of range. \<open>InvalidK\<close> belongs to the error
  taxonomy of the specification; no cell of the notebook constructs it.
\<close>

datatype error = EncodingError | StorageError | IndexError | InvalidK

subsection \<open>Configuration and schema\<close>

definition CLIP_DIMENSION :: nat where
  "CLIP_DIMENSION = 512"

text \<open>
  \<open>class ImageSearchTest(Base)\<close>: the primary key \<open>id\<close> (\<open>None\<close> until the row is
  inserted), \<open>image_id\<close> and \<open>embedding\<close>.
\<close>

record 'a ImageSearchTest =
  id_col :: "int option"
  image_id :: int
  embedding :: "'a list"

text \<open>
  The table as the engine holds it: the dimension of its vector column, fixed when the table
  is created, its rows in insertion order, and the next value of the auto-increment key.
  The database is the table, or \<open>None\<close> when the table does not exist.
\<close>

record 'a table =
  dimension :: nat
  rows :: "'a ImageSearchTest list"
  auto_increment :: int

type_synonym 'a database = "'a table option"

text \<open>\<open>Base.metadata.drop_all(engine)\<close>: drops the table when it exists.\<close>

definition drop_all :: "'a database \<Rightarrow> 'a database" where
  "drop_all db = None"

text \<open>
  \<open>Base.metadata.create_all(engine)\<close>: creates the table when it does not exist and leaves
  an existing table as it is.
\<close>

definition create_all :: "'a database \<Rightarrow> 'a database" where
  "create_all db =
     (case db of
        None \<Rightarrow> Some \<lparr>dimension = CLIP_DIMENSION, rows = [], auto_increment = 1\<rparr>
      | Some t \<Rightarrow> Some t)"

text \<open>The last two lines of the schema cell.\<close>

definition init_schema :: "'a database \<Rightarrow> 'a database" where
  "init_schema db = create_all (drop_all db)"

subsection \<open>Python subscripts\<close>

text \<open>
  The subscript \<open>xs[i]\<close> of a Python list: an index from \<open>0\<close> up to the length reads
  from the front, an index from \<open>-1\<close> down to minus the length reads from the back, and
  any other index raises IndexError.
\<close>

definition getitem :: "'b list \<Rightarrow> int \<Rightarrow> error + 'b" where
  "getitem xs i =
     (if 0 \<le> i \<and> i < int (length xs) then Inr (xs ! nat i)
      else if i < 0 \<and> - int (length xs) \<le> i then Inr (xs ! nat (int (length xs) + i))
      else Inl IndexError)"

subsection \<open>The encode functions\<close>

definition encode_images_to_embeddings ::
  "('img list \<Rightarrow> 'a list list option) \<Rightarrow> 'img list \<Rightarrow> error + 'a list list" where
  "encode_images_to_embeddings model_img images =
     (case model_img images of None \<Rightarrow> Inl EncodingError | Some image_features \<Rightarrow> Inr image_features)"

text \<open>\<open>encode_text_to_embedding\<close> returns row \<open>[0]\<close> of the array.\<close>

definition encode_text_to_embedding ::
  "(string \<Rightarrow> 'a list list option) \<Rightarrow> string \<Rightarrow> error + 'a list" where
  "encode_text_to_embedding model_txt text =
     (case model_txt text of
        None \<Rightarrow> Inl EncodingError
      | Some text_features \<Rightarrow> getitem text_features 0)"

subsection \<open>The session\<close>

text \<open>
  A session holds the objects added and not yet written. \<open>commit\<close> writes them in one
  transaction: the rows are inserted one after the other into the transaction's copy of
  the table, an insert whose vector has not the column's dimension raises, and the copy
  replaces the table only when every insert has succeeded. Leaving the \<open>with\<close> block
  closes the session, which drops whatever was not committed.
\<close>

record 'a session =
  pending :: "'a ImageSearchTest list"

definition Session :: "'a session" where
  "Session = \<lparr>pending = []\<rparr>"

definition add_all :: "'a session \<Rightarrow> 'a ImageSearchTest list \<Rightarrow> 'a session" where
  "add_all s objects = s\<lparr>pending := pending s @ objects\<rparr>"

definition insert_row :: "'a table \<Rightarrow> 'a ImageSearchTest \<Rightarrow> error + 'a table" where
  "insert_row t obj =
     (if length (embedding obj) = dimension t
      then Inr (t\<lparr>rows := rows t @ [obj\<lparr>id_col := Some (auto_increment t)\<rparr>],
                  auto_increment := auto_increment t + 1\<rparr>)
      else Inl StorageError)"

fun flush :: "'a table \<Rightarrow> 'a ImageSearchTest list \<Rightarrow> error + 'a table" where
  "flush t [] = Inr t"
| "flush t (obj # objs) =
     (case insert_row t obj of Inl e \<Rightarrow> Inl e | Inr t' \<Rightarrow> flush t' objs)"

definition commit :: "'a database \<Rightarrow> 'a session \<Rightarrow> (error + unit) \<times> 'a database" where
  "commit db s =
     (if pending s = [] then (Inr (), db)
      else case db of
        None \<Rightarrow> (Inl StorageError, db)
      | Some t \<Rightarrow>
          (case flush t (pending s) of
             Inl e \<Rightarrow> (Inl e, db)
           | Inr t' \<Rightarrow> (Inr (), Some t')))"

subsection \<open>The ingestion cell\<close>

text \<open>
  The loop \<open>for i, embedding in enumerate(images_embedding)\<close>: it reads
  \<open>imagenet_images[i]\<close> and appends one object to \<open>objects\<close>.
\<close>

fun build_objects ::
  "'img list \<Rightarrow> 'a ImageSearchTest list \<Rightarrow> (nat \<times> 'a list) list \<Rightarrow> error + 'a ImageSearchTest list" where
  "build_objects imagenet_images objects [] = Inr objects"
| "build_objects imagenet_images objects ((i, e) # rest) =
     (case getitem imagenet_images (int i) of
        Inl err \<Rightarrow> Inl err
      | Inr img \<Rightarrow>
          build_objects imagenet_images
            (objects @ [\<lparr>id_col = None, image_id = int i, embedding = e\<rparr>]) rest)"

definition ingestion ::
  "('img list \<Rightarrow> 'a list list option) \<Rightarrow> 'img list \<Rightarrow> 'a database \<Rightarrow> (error + unit) \<times> 'a database" where
  "ingestion model_img imagenet_images db =
     (case encode_images_to_embeddings model_img imagenet_images of
        Inl e \<Rightarrow> (Inl e, db)
      | Inr images_embedding \<Rightarrow>
          (case build_objects imagenet_images [] (enumerate 0 images_embedding) of
             Inl e \<Rightarrow> (Inl e, db)
           | Inr objects \<Rightarrow> commit db (add_all Session objects)))"

subsection \<open>The query cell\<close>

text \<open>
  \<open>session.query(ImageSearchTest, ....cosine_distance(q).label("distance"))\<close> pairs every
  row with its distance to the query vector; \<open>order_by(asc("distance"))\<close> sorts the pairs
  by that score, rows of equal score staying in the table's order; \<open>limit(n)\<close> keeps the
  first \<open>n\<close>; \<open>all()\<close> runs the query, which raises when the table does not exist.
\<close>

definition with_distance ::
  "('a list \<Rightarrow> 'a list \<Rightarrow> 'd) \<Rightarrow> 'a list \<Rightarrow> 'a ImageSearchTest list \<Rightarrow> ('a ImageSearchTest \<times> 'd) list" where
  "with_distance metric q rs = map (\<lambda>r. (r, metric (embedding r) q)) rs"

definition order_by_asc :: "('r \<times> 'd::linorder) list \<Rightarrow> ('r \<times> 'd) list" where
  "order_by_asc ps = sort_key snd ps"

definition limit :: "nat \<Rightarrow> 'r list \<Rightarrow> 'r list" where
  "limit n ps = take n ps"

definition session_query ::
  "('a list \<Rightarrow> 'a list \<Rightarrow> 'd::linorder) \<Rightarrow> 'a database \<Rightarrow> 'a list \<Rightarrow> error + ('a ImageSearchTest \<times> 'd) list" where
  "session_query metric db q =
     (case db of
        None \<Rightarrow> Inl StorageError
      | Some t \<Rightarrow> Inr (limit 5 (order_by_asc (with_distance metric q (rows t)))))"

text \<open>
  The query pipeline: encode the text, run the query in a session. The session commits
  nothing, so the database comes back as it went in. (The notebook binds \<open>query_text\<close>
  to \<open>"dog"\<close>.)
\<close>

definition query_pipeline ::
  "(string \<Rightarrow> 'a list list option) \<Rightarrow> ('a list \<Rightarrow> 'a list \<Rightarrow> 'd::linorder) \<Rightarrow> string \<Rightarrow> 'a database
     \<Rightarrow> (error + ('a ImageSearchTest \<times> 'd) list) \<times> 'a database" where
  "query_pipeline model_txt metric query_text db =
     (case encode_text_to_embedding model_txt query_text of
        Inl e \<Rightarrow> (Inl e, db)
      | Inr query_text_embedding \<Rightarrow> (session_query metric db query_text_embedding, db))"

text \<open>The loop \<open>for obj, d in results\<close> that collects the images to display.\<close>

fun display_loop ::
  "'img list \<Rightarrow> ('d \<Rightarrow> 's) \<Rightarrow> 'img list \<times> 's list \<Rightarrow> ('a ImageSearchTest \<times> 'd) list
     \<Rightarrow> error + ('img list \<times> 's list)" where
  "display_loop imagenet_images sim (similar_images, similarities) [] =
     Inr (similar_images, similarities)"
| "display_loop imagenet_images sim (similar_images, similarities) ((obj, d) # rest) =
     (case getitem imagenet_images (image_id obj) of
        Inl err \<Rightarrow> Inl err
      | Inr img \<Rightarrow>
          display_loop imagenet_images sim (similar_images @ [img], similarities @ [sim d]) rest)"

definition display_results ::
  "'img list \<Rightarrow> ('d \<Rightarrow> 's) \<Rightarrow> ('a ImageSearchTest \<times> 'd) list \<Rightarrow> error + ('img list \<times> 's list)" where
  "display_results imagenet_images sim results = display_loop imagenet_images sim ([], []) results"

subsection \<open>The cosine distance\<close>

text \<open>
  The operator the query cell names, \<open>cosine_distance\<close>, on vectors of real numbers:
  one minus the cosine of the angle between the two vectors. It is computed in exact
  arithmetic here; the rounding of the engine's floating-point numbers is not modelled.
  Where a vector has norm zero the quotient is undefined and the engine yields NULL, which
  Python reads as \<open>None\<close>; in ascending order NULL comes before every number, as \<open>None\<close>
  comes before every \<open>Some d\<close> in the order of \<open>real option\<close>.
\<close>

definition dot :: "real list \<Rightarrow> real list \<Rightarrow> real" where
  "dot u v = sum_list (map2 (*) u v)"

definition cosine_distance :: "real list \<Rightarrow> real list \<Rightarrow> real option" where
  "cosine_distance u v =
     (if dot u u = 0 \<or> dot v v = 0 then None
      else Some (1 - dot u v / (sqrt (dot u u) * sqrt (dot v v))))"

subsection \<open>The query, with the order of ties left to the engine\<close>

text \<open>
  \<open>order_by(asc("distance"))\<close> names the distance and nothing else, so the statement sent
  is \<open>ORDER BY distance ASC LIMIT 5\<close> with no second key: among rows at one distance the
  engine is free to return any order, and need not return the same order twice.
  \<open>order_by_asc\<close> above is the run that keeps the table's order; the relations below hold
  of every run. The engine arranges the scored rows in some list \<open>S\<close> that has the same
  pairs and ascending scores, and the answer is \<open>limit 5 S\<close>.
\<close>

inductive session_query_any ::
  "('a list \<Rightarrow> 'a list \<Rightarrow> 'd::linorder) \<Rightarrow> 'a database \<Rightarrow> 'a list
     \<Rightarrow> error + ('a ImageSearchTest \<times> 'd) list \<Rightarrow> bool"
  for metric :: "'a list \<Rightarrow> 'a list \<Rightarrow> 'd::linorder" and db :: "'a database" and q :: "'a list" where
  no_table: "db = None \<Longrightarrow> session_query_any metric db q (Inl StorageError)"
| answer: "db = Some t \<Longrightarrow> mset S = mset (with_distance metric q (rows t)) \<Longrightarrow>
     sorted (map snd S) \<Longrightarrow> session_query_any metric db q (Inr (limit 5 S))"

inductive query_run ::
  "(string \<Rightarrow> 'a list list option) \<Rightarrow> ('a list \<Rightarrow> 'a list \<Rightarrow> 'd::linorder) \<Rightarrow> string \<Rightarrow> 'a database
     \<Rightarrow> (error + ('a ImageSearchTest \<times> 'd) list) \<times> 'a database \<Rightarrow> bool"
  for model_txt :: "string \<Rightarrow> 'a list list option" and metric :: "'a list \<Rightarrow> 'a list \<Rightarrow> 'd::linorder"
    and query_text :: string and db :: "'a database" where
  not_encoded: "encode_text_to_embedding model_txt query_text = Inl e \<Longrightarrow>
     query_run model_txt metric query_text db (Inl e, db)"
| queried: "encode_text_to_embedding model_txt query_text = Inr query_text_embedding \<Longrightarrow>
     session_query_any metric db query_text_embedding res \<Longrightarrow>
     query_run model_txt metric query_text db (res, db)"

subsection \<open>What the properties speak of\<close>

text \<open>
  A ranked result of size \<open>k\<close> over the stored rows: every pair carries the distance of
  its row to the query vector, the scores ascend, the result has \<open>k\<close> pairs or all the
  rows when there are fewer, its rows are stored rows (counted with multiplicity), and no
  row left out is nearer than a row returned.
\<close>

definition is_search_result ::
  "('a list \<Rightarrow> 'a list \<Rightarrow> 'd::linorder) \<Rightarrow> 'a list \<Rightarrow> 'a ImageSearchTest list \<Rightarrow> nat
     \<Rightarrow> ('a ImageSearchTest \<times> 'd) list \<Rightarrow> bool" where
  "is_search_result metric q stored k rs \<longleftrightarrow>
     list_all (\<lambda>(r, d). d = metric (embedding r) q) rs \<and>
     sorted (map snd rs) \<and>
     length rs = min k (length stored) \<and>
     mset (map fst rs) \<subseteq># mset stored \<and>
     (\<forall>r \<in># mset stored - mset (map fst rs). \<forall>p \<in> set rs. snd p \<le> metric (embedding r) q)"

text \<open>The objects the ingestion loop is to build from the rows of the model's array.\<close>

definition batch_objects :: "'a list list \<Rightarrow> 'a ImageSearchTest list" where
  "batch_objects embs =
     map (\<lambda>(i, e). \<lparr>id_col = None, image_id = int i, embedding = e\<rparr>) (enumerate 0 embs)"

text \<open>The objects of a batch as rows: the keys count up from \<open>k\<close>.\<close>

definition with_ids :: "int \<Rightarrow> 'a ImageSearchTest list \<Rightarrow> 'a ImageSearchTest list" where
  "with_ids k objs = map (\<lambda>(j, obj). obj\<lparr>id_col := Some (k + int j)\<rparr>) (enumerate 0 objs)"

text \<open>
  Every record of a batch is visible: the table is the old table followed by the batch.
  (An empty batch writes nothing, so it is visible even where no table exists.)
\<close>

definition batch_visible :: "'a ImageSearchTest list \<Rightarrow> 'a database \<Rightarrow> 'a database \<Rightarrow> bool" where
  "batch_visible objs db db' =
     (case (db, db') of
        (Some t, Some t') \<Rightarrow>
          dimension t' = dimension t \<and> rows t' = rows t @ with_ids (auto_increment t) objs
      | (None, None) \<Rightarrow> objs = []
      | _ \<Rightarrow> False)"



text \<open>Every stored embedding has the dimension of the column, which is 512.\<close>

definition stored_dimension_ok :: "'a database \<Rightarrow> bool" where
  "stored_dimension_ok db =
     (case db of
        None \<Rightarrow> True
      | Some t \<Rightarrow> dimension t = CLIP_DIMENSION \<and> list_all (\<lambda>r. length (embedding r) = CLIP_DIMENSION) (rows t))"

subsection \<open>A concrete run\<close>

text \<open>
  Images are numbers; the model maps image \<open>n\<close> to the vector \<open>(n, 0, ..., 0)\<close> of
  dimension 512, raises on a batch that holds an image numbered 1000 or more (a corrupt
  image), and maps a text to the vector of its length; the metric is the squared Euclidean
  distance on integer vectors.
\<close>

definition example_vec :: "int \<Rightarrow> int list" where
  "example_vec a = a # replicate 511 0"

definition example_dist :: "int list \<Rightarrow> int list \<Rightarrow> int" where
  "example_dist u v = sum_list (map2 (\<lambda>a b. (a - b) * (a - b)) u v)"

definition example_model_img :: "nat list \<Rightarrow> int list list option" where
  "example_model_img images =
     (if list_ex (\<lambda>n. 1000 \<le> n) images then None
      else Some (map (\<lambda>n. example_vec (int n)) images))"

definition example_model_txt :: "string \<Rightarrow> int list list option" where
  "example_model_txt text = Some [example_vec (int (length text))]"

text \<open>A model whose second vector has not the dimension of the column.\<close>

definition example_short_model_img :: "nat list \<Rightarrow> int list list option" where
  "example_short_model_img images = Some [example_vec 0, [1, 2, 3]]"

definition example_row :: "int \<Rightarrow> int \<Rightarrow> int \<Rightarrow> int ImageSearchTest" where
  "example_row k i a = \<lparr>id_col = Some k, image_id = i, embedding = example_vec a\<rparr>"

definition example_table6 :: "int table" where
  "example_table6 =
     \<lparr>dimension = 512,
      rows = [example_row 1 0 0, example_row 2 1 1, example_row 3 2 2,
              example_row 4 3 3, example_row 5 4 4, example_row 6 5 5],
      auto_increment = 7\<rparr>"

definition example_top5 :: "(int ImageSearchTest \<times> int) list" where
  "example_top5 =
     [(example_row 4 3 3, 0), (example_row 3 2 2, 1), (example_row 5 4 4, 1),
      (example_row 2 1 1, 4), (example_row 6 5 5, 4)]"

text \<open>The table after ingesting the same image twice: two rows with one embedding.\<close>

definition example_table_twins :: "int table" where
  "example_table_twins =
     \<lparr>dimension = 512,
      rows = [example_row 1 0 3, example_row 2 1 3],
      auto_increment = 3\<rparr>"

text \<open>
  A second run, on real vectors under the cosine distance: image \<open>0\<close> (all black, say) is
  encoded as the zero vector, images \<open>1\<close>, \<open>2\<close> and the others as the unit vectors
  \<open>(1, 0, ...)\<close>, \<open>(0, 1, 0, ...)\<close> and \<open>(-1, 0, ...)\<close>, and every text as
  \<open>(0, 1, 0, ...)\<close>.
\<close>

definition example_axis :: "real \<Rightarrow> real \<Rightarrow> real list" where
  "example_axis a b = a # b # replicate 510 0"

definition example_clip_img :: "nat list \<Rightarrow> real list list option" where
  "example_clip_img images =
     Some (map (\<lambda>n. if n = 0 then example_axis 0 0
                     else if n = 1 then example_axis 1 0
                     else if n = 2 then example_axis 0 1
                     else example_axis (- 1) 0) images)"

definition example_clip_txt :: "string \<Rightarrow> real list list option" where
  "example_clip_txt text = Some [example_axis 0 1]"

definition example_clip_row :: "int \<Rightarrow> int \<Rightarrow> real \<Rightarrow> real \<Rightarrow> real ImageSearchTest" where
  "example_clip_row k i a b = \<lparr>id_col = Some k, image_id = i, embedding = example_axis a b\<rparr>"

text \<open>The tables after ingesting the images \<open>[1, 2, 3]\<close>, \<open>[2, 2]\<close> and \<open>[2, 0]\<close>.\<close>

definition example_clip_table :: "real table" where
  "example_clip_table =
     \<lparr>dimension = 512,
      rows = [example_clip_row 1 0 1 0, example_clip_row 2 1 0 1, example_clip_row 3 2 (- 1) 0],
      auto_increment = 4\<rparr>"

definition example_clip_twins :: "real table" where
  "example_clip_twins =
     \<lparr>dimension = 512,
      rows = [example_clip_row 1 0 0 1, example_clip_row 2 1 0 1],
      auto_increment = 3\<rparr>"

definition example_clip_zero :: "real table" where
  "example_clip_zero =
     \<lparr>dimension = 512,
      rows = [example_clip_row 1 0 0 1, example_clip_row 2 1 0 0],
      auto_increment = 3\<rparr>"

section \<open>Properties\<close>

subsection \<open>Schema initializer\<close>

text \<open>
  C7. Running the schema initializer is a destructive reset: whatever the database held
  before, afterwards the table exists with the configured schema (a vector column of
  dimension 512) and holds no record.
\<close>

theorem init_schema_resets:
  "init_schema db = Some \<lparr>dimension = 512, rows = [], auto_increment = 1\<rparr>"
  by (simp add: init_schema_def drop_all_def create_all_def CLIP_DIMENSION_def)

subsection \<open>Facts about the concrete run\<close>

lemma length_example_vec: "length (example_vec a) = 512"
  by (simp add: example_vec_def)

lemma example_dist_vec: "example_dist (example_vec a) (example_vec b) = (a - b) * (a - b)"
  by (simp add: example_vec_def example_dist_def sum_list_replicate)

lemma example_encode_text:
  "encode_text_to_embedding example_model_txt ''dog'' = Inr (example_vec 3)"
  by (simp add: encode_text_to_embedding_def example_model_txt_def getitem_def)

lemma init_schema_eq:
  "init_schema db = Some \<lparr>dimension = 512, rows = [], auto_increment = 1\<rparr>"
  by (simp add: init_schema_def drop_all_def create_all_def CLIP_DIMENSION_def)

lemma example_ingestion6:
  "ingestion example_model_img [0, 1, 2, 3, 4, 5] (init_schema None) = (Inr (), Some example_table6)"
  by (simp add: ingestion_def encode_images_to_embeddings_def example_model_img_def
      enumerate_eq_zip upt_rec getitem_def commit_def add_all_def Session_def init_schema_eq
      insert_row_def length_example_vec example_row_def example_table6_def)

lemma example_ingestion_twins:
  "ingestion example_model_img [3, 3] (init_schema None) = (Inr (), Some example_table_twins)"
  by (simp add: ingestion_def encode_images_to_embeddings_def example_model_img_def
      enumerate_eq_zip upt_rec getitem_def commit_def add_all_def Session_def init_schema_eq
      insert_row_def length_example_vec example_row_def example_table_twins_def)

lemma example_query6:
  "query_pipeline example_model_txt example_dist ''dog'' (Some example_table6) =
     (Inr example_top5, Some example_table6)"
  by (simp add: query_pipeline_def example_encode_text session_query_def limit_def
      order_by_asc_def with_distance_def example_row_def example_dist_vec example_table6_def
      example_top5_def)

lemma example_query_twins:
  "query_pipeline example_model_txt example_dist ''dog'' (Some example_table_twins) =
     (Inr [(example_row 1 0 3, 0), (example_row 2 1 3, 0)], Some example_table_twins)"
  by (simp add: query_pipeline_def example_encode_text session_query_def limit_def
      order_by_asc_def with_distance_def example_row_def example_dist_vec example_table_twins_def)

subsection \<open>The query\<close>

lemma fst_with_distance: "map fst (with_distance metric q rs) = rs"
  by (simp add: with_distance_def comp_def)

lemma scored_with_distance:
  "p \<in> set (with_distance metric q rs) \<Longrightarrow> snd p = metric (embedding (fst p)) q"
  by (auto simp: with_distance_def)

lemma ranked_prefix:
  fixes metric :: "'a list \<Rightarrow> 'a list \<Rightarrow> 'd::linorder"
  shows "is_search_result metric q stored n (limit n (order_by_asc (with_distance metric q stored)))"
proof -
  let ?S = "order_by_asc (with_distance metric q stored)"
  have set_S: "set ?S = set (with_distance metric q stored)"
    by (simp add: order_by_asc_def)
  have sorted_S: "sorted (map snd ?S)"
    by (simp add: order_by_asc_def)
  have mset_S: "mset (map fst ?S) = mset stored"
    using fst_with_distance [of metric q stored]
    by (metis order_by_asc_def mset_map mset_sort)
  have split: "?S = take n ?S @ drop n ?S" by simp
  have a: "list_all (\<lambda>(r, d). d = metric (embedding r) q) (take n ?S)"
    unfolding list_all_iff
    using scored_with_distance [of _ metric q stored] set_S by (auto dest!: in_set_takeD)
  have b: "sorted (map snd (take n ?S))"
    using sorted_S by (metis sorted_append split map_append)
  have c: "length (take n ?S) = min n (length stored)"
    by (simp add: order_by_asc_def with_distance_def min.commute)
  have m: "mset stored = mset (map fst (take n ?S)) + mset (map fst (drop n ?S))"
    by (metis mset_S split map_append mset_append)
  have d: "mset (map fst (take n ?S)) \<subseteq># mset stored"
    using m by simp
  have rest: "mset stored - mset (map fst (take n ?S)) = mset (map fst (drop n ?S))"
    using m by simp
  have e: "\<forall>r \<in># mset stored - mset (map fst (take n ?S)). \<forall>p \<in> set (take n ?S). snd p \<le> metric (embedding r) q"
  proof (intro ballI)
    fix r p
    assume r: "r \<in># mset stored - mset (map fst (take n ?S))" and p: "p \<in> set (take n ?S)"
    from r rest obtain p' where p': "p' \<in> set (drop n ?S)" "r = fst p'" by auto
    have "sorted (map snd (take n ?S) @ map snd (drop n ?S))"
      using sorted_S by (metis split map_append)
    then have "snd p \<le> snd p'" using p p'(1) by (auto simp: sorted_append)
    moreover have "snd p' = metric (embedding (fst p')) q"
      using p'(1) set_S scored_with_distance [of p' metric q stored] by (auto dest!: in_set_dropD)
    ultimately show "snd p \<le> metric (embedding r) q" using p'(2) by simp
  qed
  show ?thesis
    unfolding is_search_result_def limit_def using a b c d e by blast
qed

lemma query_pipeline_ok:
  "encode_text_to_embedding model_txt query_text = Inr q \<Longrightarrow>
   query_pipeline model_txt metric query_text (Some t) =
     (Inr (limit 5 (order_by_asc (with_distance metric q (rows t)))), Some t)"
  by (simp add: query_pipeline_def session_query_def)

lemma query_pipeline_InrD:
  assumes "query_pipeline model_txt metric query_text db = (Inr rs, db')"
  obtains t q where "db = Some t" and "db' = db"
    and "encode_text_to_embedding model_txt query_text = Inr q"
    and "rs = limit 5 (order_by_asc (with_distance metric q (rows t)))"
  using assms
  by (auto simp: query_pipeline_def session_query_def split: sum.splits option.splits)

lemma snd_query_pipeline: "snd (query_pipeline model_txt metric query_text db) = db"
  by (simp add: query_pipeline_def split: sum.splits)

lemma encode_text_not_InvalidK: "encode_text_to_embedding model_txt query_text \<noteq> Inl InvalidK"
  by (simp add: encode_text_to_embedding_def getitem_def split: option.splits)

text \<open>
  C1 (as amended). For every storage state in which the table exists and every query text
  the model encodes, the query pipeline returns a ranked sequence of (record, distance)
  pairs: each distance is the metric between the record's embedding and the query vector,
  the distances ascend (nearest first), no stored record left out is nearer than a
  returned one, and the sequence is truncated to 5, the constant of the query cell, not
  to a K of the caller.
\<close>

theorem query_pipeline_ranked_top5:
  fixes metric :: "'a list \<Rightarrow> 'a list \<Rightarrow> 'd::linorder"
  assumes "db = Some t" and "encode_text_to_embedding model_txt query_text = Inr q"
  shows "\<exists>rs. query_pipeline model_txt metric query_text db = (Inr rs, db) \<and>
              is_search_result metric q (rows t) 5 rs"
  using assms ranked_prefix [of metric q "rows t" 5] by (simp add: query_pipeline_ok)

theorem query_pipeline_ranked_top5_witness:
  "encode_text_to_embedding example_model_txt ''dog'' = Inr (example_vec 3) \<and>
   (\<exists>rs. query_pipeline example_model_txt example_dist ''dog'' (Some example_table6) =
            (Inr rs, Some example_table6) \<and>
          is_search_result example_dist (example_vec 3) (rows example_table6) 5 rs)"
  using query_pipeline_ranked_top5 [OF refl example_encode_text, where t = example_table6
      and metric = example_dist] example_encode_text by simp

text \<open>
  C1 as stated fails: with six records stored, a caller asking for K = 6 gets five pairs,
  which is not the ranked sequence truncated to 6.
\<close>

theorem query_pipeline_requested_k_counterexample:
  "fst (query_pipeline example_model_txt example_dist ''dog'' (Some example_table6)) = Inr example_top5 \<and>
   \<not> is_search_result example_dist (example_vec 3) (rows example_table6) 6 example_top5"
proof -
  have "length example_top5 = 5" by (simp add: example_top5_def)
  moreover have "length (rows example_table6) = 6" by (simp add: example_table6_def)
  ultimately have "\<not> is_search_result example_dist (example_vec 3) (rows example_table6) 6 example_top5"
    by (simp add: is_search_result_def)
  then show ?thesis by (simp add: example_query6)
qed

text \<open>
  C9. The limit of the query pipeline is the constant 5: whatever the storage state and
  the query text, a returned result has 5 entries, or as many as there are stored records
  when these are fewer; so it has at most 5 entries even when more records are stored.
\<close>

theorem query_pipeline_at_most_five:
  fixes metric :: "'a list \<Rightarrow> 'a list \<Rightarrow> 'd::linorder"
  assumes "query_pipeline model_txt metric query_text (Some t) = (Inr rs, db')"
  shows "length rs \<le> 5 \<and> length rs = min 5 (length (rows t))"
proof -
  from assms show ?thesis
    by (elim query_pipeline_InrD) (simp add: limit_def order_by_asc_def with_distance_def min.commute)
qed

theorem query_pipeline_at_most_five_witness:
  "query_pipeline example_model_txt example_dist ''dog'' (Some example_table6) =
     (Inr example_top5, Some example_table6) \<and>
   length (rows example_table6) = 6 \<and>
   length example_top5 \<le> 5 \<and>
   length example_top5 = min 5 (length (rows example_table6))"
  using query_pipeline_at_most_five [OF example_query6] example_query6
  by (simp add: example_table6_def)

lemma limit5_all: "length ps \<le> 5 \<Longrightarrow> limit 5 ps = ps"
  by (simp add: limit_def)

lemma query_pipeline_not_InvalidK:
  "fst (query_pipeline model_txt metric query_text db) \<noteq> Inl InvalidK"
  using encode_text_not_InvalidK [of model_txt query_text]
  by (auto simp: query_pipeline_def session_query_def split: sum.splits option.splits)

text \<open>
  C4 (as amended). The query pipeline never fails with InvalidK: it takes no K, its limit
  is the constant 5, and no cell checks a K. When at most 5 records are stored, so that
  the limit is no less than their number, it returns all stored records, ranked.
\<close>

theorem query_pipeline_never_InvalidK:
  fixes metric :: "'a list \<Rightarrow> 'a list \<Rightarrow> 'd::linorder"
  shows "fst (query_pipeline model_txt metric query_text db) \<noteq> Inl InvalidK \<and>
    (\<forall>t q. db = Some t \<and> encode_text_to_embedding model_txt query_text = Inr q \<and>
        length (rows t) \<le> 5 \<longrightarrow>
      (\<exists>rs. query_pipeline model_txt metric query_text db = (Inr rs, db) \<and>
            is_search_result metric q (rows t) 5 rs \<and> mset (map fst rs) = mset (rows t)))"
proof (intro conjI allI impI)
  show "fst (query_pipeline model_txt metric query_text db) \<noteq> Inl InvalidK"
    by (rule query_pipeline_not_InvalidK)
next
  fix t q
  assume h: "db = Some t \<and> encode_text_to_embedding model_txt query_text = Inr q \<and> length (rows t) \<le> 5"
  let ?S = "order_by_asc (with_distance metric q (rows t))"
  have len: "length ?S \<le> 5" using h by (simp add: order_by_asc_def with_distance_def)
  have "mset (map fst ?S) = mset (rows t)"
    using fst_with_distance [of metric q "rows t"] by (metis order_by_asc_def mset_map mset_sort)
  then have "mset (map fst (limit 5 ?S)) = mset (rows t)"
    using len by (simp add: limit5_all)
  moreover have "is_search_result metric q (rows t) 5 (limit 5 ?S)" by (rule ranked_prefix)
  moreover have "query_pipeline model_txt metric query_text db = (Inr (limit 5 ?S), db)"
    using h by (simp add: query_pipeline_ok)
  ultimately show "\<exists>rs. query_pipeline model_txt metric query_text db = (Inr rs, db) \<and>
            is_search_result metric q (rows t) 5 rs \<and> mset (map fst rs) = mset (rows t)"
    by blast
qed

theorem query_pipeline_never_InvalidK_witness:
  "encode_text_to_embedding example_model_txt ''dog'' = Inr (example_vec 3) \<and>
   length (rows example_table_twins) \<le> 5 \<and>
   fst (query_pipeline example_model_txt example_dist ''dog'' (Some example_table_twins)) \<noteq> Inl InvalidK \<and>
   (\<exists>rs. query_pipeline example_model_txt example_dist ''dog'' (Some example_table_twins) =
            (Inr rs, Some example_table_twins) \<and>
          is_search_result example_dist (example_vec 3) (rows example_table_twins) 5 rs \<and>
          mset (map fst rs) = mset (rows example_table_twins))"
proof -
  have len: "length (rows example_table_twins) \<le> 5" by (simp add: example_table_twins_def)
  from query_pipeline_never_InvalidK [where db = "Some example_table_twins"
      and model_txt = example_model_txt and query_text = "''dog''" and metric = example_dist]
  show ?thesis using example_encode_text len by blast
qed

text \<open>
  C4 as stated fails: for a caller's K = 0 the pipeline does not fail with InvalidK; it
  returns the two stored records, ranked.
\<close>

theorem query_pipeline_k_zero_counterexample:
  "(0::int) \<le> 0 \<and>
   fst (query_pipeline example_model_txt example_dist ''dog'' (Some example_table_twins)) =
     Inr [(example_row 1 0 3, 0), (example_row 2 1 3, 0)] \<and>
   fst (query_pipeline example_model_txt example_dist ''dog'' (Some example_table_twins)) \<noteq> Inl InvalidK"
  by (simp add: example_query_twins)

lemma limit5_Cons: "ps \<noteq> [] \<Longrightarrow> limit 5 ps = hd ps # take 4 (tl ps)"
  by (cases ps) (simp_all add: limit_def numeral_eq_Suc)

subsection \<open>The ingestion\<close>

lemma getitem_nat:
  "getitem xs (int i) = (if i < length xs then Inr (xs ! i) else Inl IndexError)"
  by (simp add: getitem_def)

lemma build_objects_eq:
  "build_objects images acc xs =
     (if list_all (\<lambda>(i, e). i < length images) xs
      then Inr (acc @ map (\<lambda>(i, e). \<lparr>id_col = None, image_id = int i, embedding = e\<rparr>) xs)
      else Inl IndexError)"
proof (induction xs arbitrary: acc)
  case Nil
  then show ?case by simp
next
  case (Cons x xs)
  obtain i e where x: "x = (i, e)" by (cases x)
  show ?case using Cons.IH by (simp add: x getitem_nat)
qed

lemma list_all_enumerate_less:
  "list_all (\<lambda>(i, e). i < m) (enumerate 0 embs) \<longleftrightarrow> embs = [] \<or> length embs \<le> m"
proof -
  have "list_all (\<lambda>(i, e). i < m) (enumerate 0 embs) \<longleftrightarrow> (\<forall>i < length embs. i < m)"
    by (simp add: list_all_length nth_enumerate_eq)
  also have "\<dots> \<longleftrightarrow> embs = [] \<or> length embs \<le> m"
  proof (cases "embs = []")
    case True
    then show ?thesis by simp
  next
    case False
    then have pos: "0 < length embs" by simp
    show ?thesis
    proof
      assume a: "\<forall>i < length embs. i < m"
      have "length embs - 1 < length embs" using pos by simp
      then have "length embs - 1 < m" using a by blast
      then show "embs = [] \<or> length embs \<le> m" using pos by arith
    next
      assume "embs = [] \<or> length embs \<le> m"
      then show "\<forall>i < length embs. i < m" using False by auto
    qed
  qed
  finally show ?thesis .
qed

lemma build_objects_batch:
  "build_objects images [] (enumerate 0 embs) =
     (if embs = [] \<or> length embs \<le> length images then Inr (batch_objects embs) else Inl IndexError)"
  by (simp add: build_objects_eq list_all_enumerate_less batch_objects_def)

lemma length_batch_objects: "length (batch_objects embs) = length embs"
  by (simp add: batch_objects_def)

lemma nth_batch_objects:
  "i < length embs \<Longrightarrow> batch_objects embs ! i = \<lparr>id_col = None, image_id = int i, embedding = embs ! i\<rparr>"
  by (simp add: batch_objects_def nth_enumerate_eq)

lemma with_ids_Nil: "with_ids k [] = []"
  by (simp add: with_ids_def)

lemma with_ids_Cons: "with_ids k (obj # objs) = obj\<lparr>id_col := Some k\<rparr> # with_ids (k + 1) objs"
proof -
  have "enumerate 0 (obj # objs) = (0, obj) # map (apfst Suc) (enumerate 0 objs)"
    by (simp add: enumerate_Suc_eq)
  then show ?thesis
    by (simp add: with_ids_def comp_def case_prod_beta add.assoc)
qed

lemma length_with_ids: "length (with_ids k objs) = length objs"
  by (simp add: with_ids_def)

lemma nth_with_ids:
  "i < length objs \<Longrightarrow> with_ids k objs ! i = (objs ! i)\<lparr>id_col := Some (k + int i)\<rparr>"
  by (simp add: with_ids_def nth_enumerate_eq)

lemma flush_eq:
  "flush t objs =
     (if list_all (\<lambda>obj. length (embedding obj) = dimension t) objs
      then Inr (t\<lparr>rows := rows t @ with_ids (auto_increment t) objs,
                  auto_increment := auto_increment t + int (length objs)\<rparr>)
      else Inl StorageError)"
proof (induction objs arbitrary: t)
  case Nil
  then show ?case by (simp add: with_ids_Nil)
next
  case (Cons obj objs)
  show ?case
    by (simp add: insert_row_def Cons.IH with_ids_Cons)
qed

lemma pending_add_all: "pending (add_all Session objs) = objs"
  by (simp add: add_all_def Session_def)

lemma commit_Inr: "commit db s = (Inr (), db') \<Longrightarrow> batch_visible (pending s) db db'"
  by (auto simp: commit_def batch_visible_def flush_eq with_ids_Nil
      split: if_splits option.splits sum.splits)

lemma commit_Inl: "commit db s = (Inl e, db') \<Longrightarrow> db' = db"
  by (auto simp: commit_def split: if_splits option.splits sum.splits)

lemma commit_Some:
  "commit (Some t) s =
     (if list_all (\<lambda>obj. length (embedding obj) = dimension t) (pending s)
      then (Inr (), Some (t\<lparr>rows := rows t @ with_ids (auto_increment t) (pending s),
                             auto_increment := auto_increment t + int (length (pending s))\<rparr>))
      else (Inl StorageError, Some t))"
  by (cases "pending s = []") (auto simp: commit_def flush_eq with_ids_Nil)

lemma ingestion_Inr:
  assumes "ingestion model_img images db = (Inr (), db')"
  obtains embs where "model_img images = Some embs"
    and "build_objects images [] (enumerate 0 embs) = Inr (batch_objects embs)"
    and "batch_visible (batch_objects embs) db db'"
proof -
  from assms obtain embs where m: "model_img images = Some embs"
    by (auto simp: ingestion_def encode_images_to_embeddings_def split: option.splits)
  from assms m have b: "build_objects images [] (enumerate 0 embs) = Inr (batch_objects embs)"
    by (auto simp: ingestion_def encode_images_to_embeddings_def build_objects_batch
        split: if_splits)
  from assms m b have "commit db (add_all Session (batch_objects embs)) = (Inr (), db')"
    by (simp add: ingestion_def encode_images_to_embeddings_def)
  then have "batch_visible (batch_objects embs) db db'"
    using commit_Inr pending_add_all by metis
  with m b show thesis by (rule that)
qed

lemma ingestion_Inl: "ingestion model_img images db = (Inl e, db') \<Longrightarrow> db' = db"
  by (auto simp: ingestion_def split: sum.splits dest: commit_Inl)

lemma ingestion_encoder_failure:
  "model_img images = None \<Longrightarrow> ingestion model_img images db = (Inl EncodingError, db)"
  by (simp add: ingestion_def encode_images_to_embeddings_def)

text \<open>
  C2. The ingestion writes the records of a batch as one transactional unit: after the
  cell has run, either it has failed and storage is as it was (no record of the batch is
  visible), or it has succeeded and every record of the batch is visible, in order, after
  the records stored before. If the encoder fails on the batch, the cell fails with the
  encoder's error and no record is written.
\<close>

theorem ingestion_all_or_nothing:
  assumes "ingestion model_img images db = (res, db')"
  shows "((\<exists>e. res = Inl e \<and> db' = db) \<or>
          (\<exists>embs. res = Inr () \<and> model_img images = Some embs \<and>
                  batch_visible (batch_objects embs) db db')) \<and>
         (model_img images = None \<longrightarrow> res = Inl EncodingError \<and> db' = db)"
proof
  show "(\<exists>e. res = Inl e \<and> db' = db) \<or>
          (\<exists>embs. res = Inr () \<and> model_img images = Some embs \<and>
                  batch_visible (batch_objects embs) db db')"
  proof (cases res)
    case (Inl e)
    then show ?thesis using assms ingestion_Inl by blast
  next
    case (Inr u)
    then have "ingestion model_img images db = (Inr (), db')" using assms by simp
    then show ?thesis using Inr by (elim ingestion_Inr) auto
  qed
next
  show "model_img images = None \<longrightarrow> res = Inl EncodingError \<and> db' = db"
    using assms by (auto simp: ingestion_encoder_failure)
qed

lemma example_ingestion_corrupt:
  "ingestion example_model_img [0, 1000] (Some example_table6) = (Inl EncodingError, Some example_table6)"
  by (simp add: ingestion_def encode_images_to_embeddings_def example_model_img_def)

lemma example_ingestion_short:
  "ingestion example_short_model_img [0, 1] (Some example_table6) = (Inl StorageError, Some example_table6)"
  by (simp add: ingestion_def encode_images_to_embeddings_def example_short_model_img_def
      enumerate_eq_zip upt_rec getitem_def commit_def add_all_def Session_def
      insert_row_def length_example_vec example_table6_def)

theorem ingestion_all_or_nothing_witness:
  "ingestion example_model_img [0, 1, 2, 3, 4, 5] (init_schema None) = (Inr (), Some example_table6) \<and>
   batch_visible (batch_objects (map (\<lambda>n. example_vec (int n)) [0, 1, 2, 3, 4, 5::nat]))
     (init_schema None) (Some example_table6) \<and>
   example_model_img [0, 1000] = None \<and>
   ingestion example_model_img [0, 1000] (Some example_table6) = (Inl EncodingError, Some example_table6) \<and>
   ingestion example_short_model_img [0, 1] (Some example_table6) = (Inl StorageError, Some example_table6)"
proof -
  have m: "example_model_img [0, 1, 2, 3, 4, 5] = Some (map (\<lambda>n. example_vec (int n)) [0, 1, 2, 3, 4, 5])"
    by (simp add: example_model_img_def)
  have n: "example_model_img [0, 1000] = None"
    by (simp add: example_model_img_def)
  from ingestion_all_or_nothing [OF example_ingestion6] m
  have "batch_visible (batch_objects (map (\<lambda>n. example_vec (int n)) [0, 1, 2, 3, 4, 5::nat]))
     (init_schema None) (Some example_table6)" by auto
  moreover from ingestion_all_or_nothing [OF example_ingestion_corrupt] n
  have "ingestion example_model_img [0, 1000] (Some example_table6) = (Inl EncodingError, Some example_table6)"
    by (simp add: example_ingestion_corrupt)
  ultimately show ?thesis using example_ingestion6 example_ingestion_short n by simp
qed

lemma encode_images_Inr:
  "encode_images_to_embeddings model_img images = Inr embs \<longleftrightarrow> model_img images = Some embs"
  by (simp add: encode_images_to_embeddings_def split: option.splits)

lemma nth_stored_batch:
  assumes "i < length embs"
  shows "image_id (with_ids k (batch_objects embs) ! i) = int i"
    and "embedding (with_ids k (batch_objects embs) ! i) = embs ! i"
  using assms by (simp_all add: nth_with_ids length_batch_objects nth_batch_objects)

text \<open>
  C6. When the encoder returns one vector per input item, the ingestion constructs exactly
  one record per item: the i-th object pairs the i-th encoder output with the index i of
  the i-th item in the enumeration of the batch, stored as \<open>image_id\<close>; these objects
  are what the session commits, and after a successful run the i-th new row of the table
  carries that index and that vector.
\<close>

theorem ingestion_one_record_per_item:
  assumes enc: "encode_images_to_embeddings model_img images = Inr embs"
    and len: "length embs = length images"
  shows "\<exists>objs. build_objects images [] (enumerate 0 embs) = Inr objs \<and>
           length objs = length images \<and>
           (\<forall>i < length images.
              objs ! i = \<lparr>id_col = None, image_id = int i, embedding = embs ! i\<rparr>) \<and>
           ingestion model_img images db = commit db (add_all Session objs) \<and>
           (\<forall>t t'. db = Some t \<and> ingestion model_img images db = (Inr (), Some t') \<longrightarrow>
              length (rows t') = length (rows t) + length images \<and>
              (\<forall>i < length images.
                 image_id (rows t' ! (length (rows t) + i)) = int i \<and>
                 embedding (rows t' ! (length (rows t) + i)) = embs ! i))"
proof -
  let ?objs = "batch_objects embs"
  have built: "build_objects images [] (enumerate 0 embs) = Inr ?objs"
    using len by (simp add: build_objects_batch)
  have size: "length ?objs = length images"
    using len by (simp add: length_batch_objects)
  have each: "\<forall>i < length images.
      ?objs ! i = \<lparr>id_col = None, image_id = int i, embedding = embs ! i\<rparr>"
    using len by (simp add: nth_batch_objects)
  have run: "ingestion model_img images db = commit db (add_all Session ?objs)"
    using enc built by (simp add: ingestion_def)
  have stored: "length (rows t') = length (rows t) + length images \<and>
      (\<forall>i < length images.
         image_id (rows t' ! (length (rows t) + i)) = int i \<and>
         embedding (rows t' ! (length (rows t) + i)) = embs ! i)"
    if h: "db = Some t \<and> ingestion model_img images db = (Inr (), Some t')" for t t'
  proof -
    from h run have "commit (Some t) (add_all Session ?objs) = (Inr (), Some t')" by metis
    then have "batch_visible ?objs (Some t) (Some t')"
      using commit_Inr pending_add_all by metis
    then have rows: "rows t' = rows t @ with_ids (auto_increment t) ?objs"
      by (simp add: batch_visible_def)
    show ?thesis
      using len by (simp add: rows length_with_ids length_batch_objects nth_stored_batch)
  qed
  from built size each run stored show ?thesis by blast
qed

lemma example_encode_images6:
  "encode_images_to_embeddings example_model_img [0, 1, 2, 3, 4, 5] =
     Inr (map (\<lambda>n. example_vec (int n)) [0, 1, 2, 3, 4, 5])"
  by (simp add: encode_images_to_embeddings_def example_model_img_def)

theorem ingestion_one_record_per_item_witness:
  "encode_images_to_embeddings example_model_img [0, 1, 2, 3, 4, 5] =
     Inr (map (\<lambda>n. example_vec (int n)) [0, 1, 2, 3, 4, 5]) \<and>
   length (map (\<lambda>n. example_vec (int n)) [0, 1, 2, 3, 4, 5::nat]) = length [0, 1, 2, 3, 4, 5::nat] \<and>
   ingestion example_model_img [0, 1, 2, 3, 4, 5] (init_schema None) = (Inr (), Some example_table6) \<and>
   (\<exists>objs. build_objects [0, 1, 2, 3, 4, 5::nat] [] (enumerate 0 (map (\<lambda>n. example_vec (int n)) [0, 1, 2, 3, 4, 5])) = Inr objs \<and>
      length objs = 6 \<and>
      objs ! 3 = \<lparr>id_col = None, image_id = 3, embedding = example_vec 3\<rparr> \<and>
      image_id (rows example_table6 ! 3) = 3 \<and> embedding (rows example_table6 ! 3) = example_vec 3)"
proof -
  have len: "length (map (\<lambda>n. example_vec (int n)) [0, 1, 2, 3, 4, 5::nat]) = length [0, 1, 2, 3, 4, 5::nat]"
    by simp
  from ingestion_one_record_per_item [OF example_encode_images6 len, of "init_schema None"]
  obtain objs where
    b: "build_objects [0, 1, 2, 3, 4, 5::nat] [] (enumerate 0 (map (\<lambda>n. example_vec (int n)) [0, 1, 2, 3, 4, 5])) = Inr objs"
    and l: "length objs = length [0, 1, 2, 3, 4, 5::nat]"
    and e: "\<forall>i < length [0, 1, 2, 3, 4, 5::nat].
        objs ! i = \<lparr>id_col = None, image_id = int i, embedding = map (\<lambda>n. example_vec (int n)) [0, 1, 2, 3, 4, 5] ! i\<rparr>"
    by blast
  have "(3::nat) < length [0, 1, 2, 3, 4, 5::nat]" by simp
  with e have "objs ! 3 = \<lparr>id_col = None, image_id = int 3,
      embedding = map (\<lambda>n. example_vec (int n)) [0, 1, 2, 3, 4, 5] ! 3\<rparr>" by blast
  then have e3: "objs ! 3 = \<lparr>id_col = None, image_id = 3, embedding = example_vec 3\<rparr>" by simp
  have s3: "image_id (rows example_table6 ! 3) = 3 \<and> embedding (rows example_table6 ! 3) = example_vec 3"
    by (simp add: example_table6_def example_row_def)
  from b l e3 s3 example_encode_images6 example_ingestion6 show ?thesis by auto
qed

subsection \<open>Displaying the results\<close>

lemma stored_batch_image_id:
  assumes "r \<in> set (with_ids k (batch_objects embs))"
  shows "0 \<le> image_id r \<and> image_id r < int (length embs)"
proof -
  from assms obtain i where i: "i < length embs" and r: "r = with_ids k (batch_objects embs) ! i"
    by (auto simp: in_set_conv_nth length_with_ids length_batch_objects)
  then show ?thesis by (simp add: nth_stored_batch)
qed

lemma ingestion_after_init_rows:
  assumes "ingestion model_img images (init_schema db0) = (res, Some t1)"
    and "r \<in> set (rows t1)"
  shows "0 \<le> image_id r \<and> image_id r < int (length images)"
proof (cases res)
  case (Inl e)
  then have "Some t1 = init_schema db0" using assms(1) ingestion_Inl by blast
  then have "rows t1 = []" by (simp add: init_schema_eq)
  then show ?thesis using assms(2) by simp
next
  case (Inr u)
  then have run: "ingestion model_img images (init_schema db0) = (Inr (), Some t1)"
    using assms(1) by simp
  from run show ?thesis
  proof (rule ingestion_Inr)
    fix embs
    assume built: "build_objects images [] (enumerate 0 embs) = Inr (batch_objects embs)"
      and vis: "batch_visible (batch_objects embs) (init_schema db0) (Some t1)"
    from built have le: "embs = [] \<or> length embs \<le> length images"
      by (simp add: build_objects_batch split: if_splits)
    from vis have "rows t1 = with_ids 1 (batch_objects embs)"
      by (simp add: batch_visible_def init_schema_eq)
    then have "0 \<le> image_id r \<and> image_id r < int (length embs)"
      using assms(2) stored_batch_image_id by metis
    then show ?thesis using le by auto
  qed
qed

lemma display_loop_eq:
  "list_all (\<lambda>(obj, d). 0 \<le> image_id obj \<and> image_id obj < int (length images)) rs \<Longrightarrow>
   display_loop images sim (a, b) rs =
     Inr (a @ map (\<lambda>(obj, d). images ! nat (image_id obj)) rs, b @ map (\<lambda>(obj, d). sim d) rs)"
proof (induction rs arbitrary: a b)
  case Nil
  then show ?case by simp
next
  case (Cons p rs)
  obtain obj d where p: "p = (obj, d)" by (cases p)
  from Cons.prems have ok: "0 \<le> image_id obj" "image_id obj < int (length images)"
    and rest: "list_all (\<lambda>(obj, d). 0 \<le> image_id obj \<and> image_id obj < int (length images)) rs"
    by (simp_all add: p)
  have "getitem images (image_id obj) = Inr (images ! nat (image_id obj))"
    using ok by (simp add: getitem_def)
  then show ?case using Cons.IH [OF rest] by (simp add: p)
qed

text \<open>
  C10. The display loop indexes the in-memory image list by the \<open>image_id\<close> of each
  returned record. When storage was initialised and then populated only by this ingestion
  run from that same list, every returned \<open>image_id\<close> is a valid index
  (\<open>0 \<le> image_id < length\<close> of the list), so the loop raises no IndexError and
  collects the image at that index for every result.
\<close>

theorem display_never_out_of_bounds:
  fixes metric :: "'a list \<Rightarrow> 'a list \<Rightarrow> 'd::linorder"
  assumes ing: "ingestion model_img images (init_schema db0) = (res, db1)"
    and qry: "query_pipeline model_txt metric query_text db1 = (Inr results, db2)"
  shows "list_all (\<lambda>(obj, d). 0 \<le> image_id obj \<and> image_id obj < int (length images)) results \<and>
         display_results images sim results =
           Inr (map (\<lambda>(obj, d). images ! nat (image_id obj)) results, map (\<lambda>(obj, d). sim d) results)"
proof -
  from qry obtain t1 q where db1: "db1 = Some t1"
    and rs: "results = limit 5 (order_by_asc (with_distance metric q (rows t1)))"
    by (rule query_pipeline_InrD)
  have "fst p \<in> set (rows t1)" if "p \<in> set results" for p
  proof -
    from that rs have "p \<in> set (with_distance metric q (rows t1))"
      by (auto simp: limit_def order_by_asc_def dest: in_set_takeD)
    then show ?thesis by (auto simp: with_distance_def)
  qed
  then have ok: "list_all (\<lambda>(obj, d). 0 \<le> image_id obj \<and> image_id obj < int (length images)) results"
    using ingestion_after_init_rows [OF ing [unfolded db1]]
    by (fastforce simp: list_all_iff)
  then show ?thesis by (simp add: display_results_def display_loop_eq)
qed

theorem display_never_out_of_bounds_witness:
  "ingestion example_model_img [0, 1, 2, 3, 4, 5] (init_schema None) = (Inr (), Some example_table6) \<and>
   query_pipeline example_model_txt example_dist ''dog'' (Some example_table6) =
     (Inr example_top5, Some example_table6) \<and>
   list_all (\<lambda>(obj, d). 0 \<le> image_id obj \<and> image_id obj < int (length [0, 1, 2, 3, 4, 5::nat])) example_top5 \<and>
   display_results [0, 1, 2, 3, 4, 5::nat] (\<lambda>d. 1 - d) example_top5 =
     Inr (map (\<lambda>(obj, d). [0, 1, 2, 3, 4, 5] ! nat (image_id obj)) example_top5,
          map (\<lambda>(obj, d). 1 - d) example_top5)"
  using display_never_out_of_bounds [OF example_ingestion6 example_query6, of "\<lambda>d. 1 - d"]
    example_ingestion6 example_query6 by simp

subsection \<open>Dimension of the stored embeddings\<close>

text \<open>
  The vector column rejects a vector of another dimension, so the cells keep every stored
  embedding at the dimension of the column. (What the pretrained model returns is not
  constrained by the notebook.)
\<close>

lemma stored_dimension_init: "stored_dimension_ok (init_schema db)"
  by (simp add: stored_dimension_ok_def init_schema_eq CLIP_DIMENSION_def)

lemma stored_dimension_ingestion:
  assumes "stored_dimension_ok db"
  shows "stored_dimension_ok (snd (ingestion model_img images db))"
proof (cases "ingestion model_img images db")
  case (Pair res db')
  show ?thesis
  proof (cases res)
    case (Inl e)
    then have "db' = db" using Pair ingestion_Inl by blast
    then show ?thesis using assms Pair by simp
  next
    case (Inr u)
    then have run: "ingestion model_img images db = (Inr (), db')" using Pair by simp
    from run show ?thesis
    proof (rule ingestion_Inr)
      fix embs
      assume m: "model_img images = Some embs"
        and built: "build_objects images [] (enumerate 0 embs) = Inr (batch_objects embs)"
      have c: "commit db (add_all Session (batch_objects embs)) = (Inr (), db')"
        using run m built by (simp add: ingestion_def encode_images_to_embeddings_def)
      show ?thesis
      proof (cases db)
        case None
        then have "db' = None" using c by (auto simp: commit_def split: if_splits)
        then show ?thesis using Pair by (simp add: stored_dimension_ok_def)
      next
        case (Some t)
        let ?objs = "batch_objects embs"
        from c Some have ok: "list_all (\<lambda>obj. length (embedding obj) = dimension t) ?objs"
          and db': "db' = Some (t\<lparr>rows := rows t @ with_ids (auto_increment t) ?objs,
                             auto_increment := auto_increment t + int (length ?objs)\<rparr>)"
          by (auto simp: commit_Some pending_add_all split: if_splits)
        have "list_all (\<lambda>r. length (embedding r) = dimension t) (with_ids (auto_increment t) ?objs)"
          using ok by (simp add: list_all_length length_with_ids nth_with_ids)
        then show ?thesis using assms Some Pair db' by (simp add: stored_dimension_ok_def)
      qed
    qed
  qed
qed

lemma stored_dimension_query:
  "stored_dimension_ok db \<Longrightarrow> stored_dimension_ok (snd (query_pipeline model_txt metric query_text db))"
  by (simp add: snd_query_pipeline)

subsection \<open>Every run of the query\<close>

lemma order_by_asc_is_engine_order:
  "mset (order_by_asc ps) = mset ps \<and> sorted (map snd (order_by_asc ps))"
  by (simp add: order_by_asc_def)

lemma query_pipeline_is_run:
  "query_run model_txt metric query_text db (query_pipeline model_txt metric query_text db)"
proof (cases "encode_text_to_embedding model_txt query_text")
  case (Inl e)
  then show ?thesis by (simp add: query_pipeline_def query_run.not_encoded)
next
  case (Inr q)
  have "session_query_any metric db q (session_query metric db q)"
  proof (cases db)
    case None
    then show ?thesis by (simp add: session_query_def session_query_any.no_table)
  next
    case (Some t)
    then show ?thesis
      using session_query_any.answer [OF Some, of "order_by_asc (with_distance metric q (rows t))" metric q]
      by (simp add: session_query_def order_by_asc_is_engine_order)
  qed
  with Inr show ?thesis by (simp add: query_pipeline_def query_run.queried)
qed





lemma query_run_cases:
  assumes "query_run model_txt metric query_text db (res, db')"
  shows "db' = db \<and>
    (case encode_text_to_embedding model_txt query_text of
       Inl e \<Rightarrow> res = Inl e
     | Inr q \<Rightarrow> session_query_any metric db q res)"
  using assms by (cases rule: query_run.cases) auto






subsection \<open>The cosine distance is least, and zero, at the vector itself\<close>

lemma dot_Nil: "dot [] v = 0" "dot u [] = 0"
  by (simp_all add: dot_def)

lemma dot_Cons: "dot (a # u) (b # v) = a * b + dot u v"
  by (simp add: dot_def)

lemma dot_self_nonneg: "0 \<le> dot u u"
  by (induction u) (simp_all add: dot_Nil dot_Cons)

lemma cauchy_schwarz_step:
  fixes a b D P Q :: real
  assumes D: "D\<^sup>2 \<le> P * Q" and P: "0 \<le> P" and Q: "0 \<le> Q"
  shows "(a * b + D)\<^sup>2 \<le> (a * a + P) * (b * b + Q)"
proof -
  let ?y = "a\<^sup>2 * Q + b\<^sup>2 * P"
  have y: "0 \<le> ?y" using P Q by simp
  have "(2 * a * b * D)\<^sup>2 = 4 * (a\<^sup>2 * b\<^sup>2) * D\<^sup>2" by (simp add: power2_eq_square)
  also have "\<dots> \<le> 4 * (a\<^sup>2 * b\<^sup>2) * (P * Q)"
    using D by (intro mult_left_mono) simp_all
  also have "\<dots> \<le> 4 * (a\<^sup>2 * b\<^sup>2) * (P * Q) + (a\<^sup>2 * Q - b\<^sup>2 * P)\<^sup>2" by simp
  also have "\<dots> = ?y\<^sup>2" by (simp add: power2_eq_square algebra_simps)
  finally have "(2 * a * b * D)\<^sup>2 \<le> ?y\<^sup>2" .
  then have "2 * a * b * D \<le> ?y" using y by (rule power2_le_imp_le)
  then have "(a * b + D)\<^sup>2 \<le> a\<^sup>2 * b\<^sup>2 + ?y + P * Q"
    using D by (simp add: power2_eq_square algebra_simps)
  also have "\<dots> = (a * a + P) * (b * b + Q)" by (simp add: power2_eq_square algebra_simps)
  finally show ?thesis .
qed

lemma cauchy_schwarz: "(dot u v)\<^sup>2 \<le> dot u u * dot v v"
proof (induction u arbitrary: v)
  case Nil
  then show ?case by (simp add: dot_Nil)
next
  case (Cons a u)
  show ?case
  proof (cases v)
    case Nil
    then show ?thesis by (simp add: dot_Nil)
  next
    case (Cons b w)
    show ?thesis
      unfolding Cons dot_Cons
      by (rule cauchy_schwarz_step [OF Cons.IH dot_self_nonneg dot_self_nonneg])
  qed
qed

lemma cosine_distance_self: "dot q q \<noteq> 0 \<Longrightarrow> cosine_distance q q = Some 0"
  using dot_self_nonneg [of q] by (simp add: cosine_distance_def)

lemma cosine_distance_nonneg:
  assumes "cosine_distance u v = Some d"
  shows "0 \<le> d"
proof -
  define n where "n = sqrt (dot u u) * sqrt (dot v v)"
  from assms have nz: "dot u u \<noteq> 0" "dot v v \<noteq> 0"
    and d: "d = 1 - dot u v / n"
    unfolding n_def by (auto simp: cosine_distance_def split: if_splits)
  have "0 < sqrt (dot u u)" "0 < sqrt (dot v v)"
    using nz dot_self_nonneg [of u] dot_self_nonneg [of v] by simp_all
  then have pos: "0 < n" unfolding n_def by (rule mult_pos_pos)
  have "n\<^sup>2 = dot u u * dot v v"
    unfolding n_def using dot_self_nonneg [of u] dot_self_nonneg [of v]
    by (simp add: power_mult_distrib)
  then have "(dot u v)\<^sup>2 \<le> n\<^sup>2" using cauchy_schwarz [of u v] by simp
  moreover have "0 \<le> n" using pos by (rule less_imp_le)
  ultimately have "dot u v \<le> n" by (rule power2_le_imp_le)
  then have "dot u v / n \<le> 1" using pos by (simp only: divide_le_eq_1_pos)
  then show ?thesis unfolding d by linarith
qed

lemma cosine_distance_least:
  assumes "dot u u \<noteq> 0" "dot q q \<noteq> 0"
  shows "Some 0 \<le> cosine_distance u q"
proof -
  from assms obtain d where d: "cosine_distance u q = Some d"
    by (simp add: cosine_distance_def)
  then show ?thesis using cosine_distance_nonneg [OF d] by simp
qed

subsection \<open>Round trip\<close>

lemma head_of_engine_order:
  fixes S W :: "('r \<times> 'd::linorder) list"
  assumes "mset S = mset W" "sorted (map snd S)" "W \<noteq> []"
  shows "S \<noteq> [] \<and> hd S \<in> set W \<and> (\<forall>x \<in> set W. snd (hd S) \<le> snd x)"
proof -
  have set_eq: "set S = set W" using assms(1) by (rule mset_eq_setD)
  then have ne: "S \<noteq> []" using assms(3) by auto
  then obtain y ys where S: "S = y # ys" by (cases S) auto
  have set_W: "set W = insert y (set ys)" by (metis S list.simps(15) set_eq)
  have "\<forall>x \<in> set ys. snd y \<le> snd x" using assms(2) S by auto
  then have "\<forall>x \<in> set W. snd y \<le> snd x" unfolding set_W by simp
  moreover have "y \<in> set W" unfolding set_W by simp
  ultimately show ?thesis using ne S by simp
qed

text \<open>
  C5 (as amended). Round-trip under the cosine distance (exact arithmetic): for every
  table of inserted records none of whose embeddings is the zero vector, and a query
  vector equal to the embedding of one stored record, every run of the query pipeline
  (whatever the order of ties; the limit is the constant 5, whether or not it reaches the
  number of records) returns first a stored record at distance exactly 0; that first
  record is the matching record itself unless another stored record is at distance 0 too.
\<close>

theorem cosine_round_trip:
  assumes enc: "encode_text_to_embedding model_txt query_text = Inr q"
    and r: "r \<in> set (rows t)" "embedding r = q"
    and nz: "list_all (\<lambda>r'. dot (embedding r') (embedding r') \<noteq> 0) (rows t)"
  shows "query_run model_txt cosine_distance query_text (Some t)
           (query_pipeline model_txt cosine_distance query_text (Some t)) \<and>
         (\<forall>res db'. query_run model_txt cosine_distance query_text (Some t) (res, db') \<longrightarrow>
            db' = Some t \<and>
            (\<exists>p rs. res = Inr (p # rs) \<and> fst p \<in> set (rows t) \<and> snd p = Some 0 \<and>
               ((\<forall>r' \<in> set (rows t). r' \<noteq> r \<longrightarrow> cosine_distance (embedding r') q \<noteq> Some 0)
                  \<longrightarrow> fst p = r)))"
proof (intro conjI allI impI)
  show "query_run model_txt cosine_distance query_text (Some t)
           (query_pipeline model_txt cosine_distance query_text (Some t))"
    by (rule query_pipeline_is_run)
next
  fix res db'
  assume run: "query_run model_txt cosine_distance query_text (Some t) (res, db')"
  then show "db' = Some t" using query_run_cases by blast
next
  fix res db'
  assume run: "query_run model_txt cosine_distance query_text (Some t) (res, db')"
  let ?W = "with_distance cosine_distance q (rows t)"
  from run enc have "session_query_any cosine_distance (Some t) q res"
    using query_run_cases by fastforce
  then obtain S where mS: "mset S = mset ?W" and sS: "sorted (map snd S)" and res: "res = Inr (limit 5 S)"
    by (cases rule: session_query_any.cases) auto
  have W_ne: "?W \<noteq> []" using r(1) by (auto simp: with_distance_def)
  from head_of_engine_order [OF mS sS W_ne]
  have S_ne: "S \<noteq> []" and hd_in: "hd S \<in> set ?W" and hd_least: "\<forall>x \<in> set ?W. snd (hd S) \<le> snd x"
    by simp_all
  have shape: "res = Inr (hd S # take 4 (tl S))" using res S_ne by (simp add: limit5_Cons)
  have stored: "fst (hd S) \<in> set (rows t)" using hd_in by (auto simp: with_distance_def)
  have score: "snd (hd S) = cosine_distance (embedding (fst (hd S))) q"
    using hd_in by (rule scored_with_distance)
  have nz_all: "dot (embedding r') (embedding r') \<noteq> 0" if "r' \<in> set (rows t)" for r'
    using nz that by (simp add: list_all_iff)
  have q_nz: "dot q q \<noteq> 0" using nz_all [OF r(1)] r(2) by simp
  have self: "cosine_distance q q = Some 0" using q_nz by (rule cosine_distance_self)
  have "(r, cosine_distance q q) \<in> set ?W" using r by (auto simp: with_distance_def)
  then have "snd (hd S) \<le> Some 0" using hd_least self by fastforce
  moreover have "Some 0 \<le> snd (hd S)"
    unfolding score using nz_all [OF stored] q_nz by (rule cosine_distance_least)
  ultimately have zero: "snd (hd S) = Some 0" by (rule antisym)
  have "fst (hd S) = r"
    if "\<forall>r' \<in> set (rows t). r' \<noteq> r \<longrightarrow> cosine_distance (embedding r') q \<noteq> Some 0"
  proof (rule ccontr)
    assume "fst (hd S) \<noteq> r"
    then have "cosine_distance (embedding (fst (hd S))) q \<noteq> Some 0" using that stored by blast
    then show False using zero score by simp
  qed
  then show "\<exists>p rs. res = Inr (p # rs) \<and> fst p \<in> set (rows t) \<and> snd p = Some 0 \<and>
               ((\<forall>r' \<in> set (rows t). r' \<noteq> r \<longrightarrow> cosine_distance (embedding r') q \<noteq> Some 0)
                  \<longrightarrow> fst p = r)"
    using shape stored zero by blast
qed

subsection \<open>Facts about the run on real vectors\<close>

lemma length_example_axis: "length (example_axis a b) = 512"
  by (simp add: example_axis_def)

lemma dot_example_axis: "dot (example_axis a b) (example_axis c d) = a * c + b * d"
  by (simp add: example_axis_def dot_def sum_list_replicate)

lemma example_clip_encode_text:
  "encode_text_to_embedding example_clip_txt ''dog'' = Inr (example_axis 0 1)"
  by (simp add: encode_text_to_embedding_def example_clip_txt_def getitem_def)

lemma example_clip_ingestion:
  "ingestion example_clip_img [1, 2, 3] (init_schema None) = (Inr (), Some example_clip_table)"
  by (simp add: ingestion_def encode_images_to_embeddings_def example_clip_img_def
      enumerate_eq_zip upt_rec getitem_def commit_def add_all_def Session_def init_schema_eq
      insert_row_def length_example_axis example_clip_row_def example_clip_table_def)

lemma example_clip_ingestion_twins:
  "ingestion example_clip_img [2, 2] (init_schema None) = (Inr (), Some example_clip_twins)"
  by (simp add: ingestion_def encode_images_to_embeddings_def example_clip_img_def
      enumerate_eq_zip upt_rec getitem_def commit_def add_all_def Session_def init_schema_eq
      insert_row_def length_example_axis example_clip_row_def example_clip_twins_def)

lemma example_clip_ingestion_zero:
  "ingestion example_clip_img [2, 0] (init_schema None) = (Inr (), Some example_clip_zero)"
  by (simp add: ingestion_def encode_images_to_embeddings_def example_clip_img_def
      enumerate_eq_zip upt_rec getitem_def commit_def add_all_def Session_def init_schema_eq
      insert_row_def length_example_axis example_clip_row_def example_clip_zero_def)

lemma example_clip_query_twins:
  "query_pipeline example_clip_txt cosine_distance ''dog'' (Some example_clip_twins) =
     (Inr [(example_clip_row 1 0 0 1, Some 0), (example_clip_row 2 1 0 1, Some 0)],
      Some example_clip_twins)"
  by (simp add: query_pipeline_def example_clip_encode_text session_query_def limit_def
      order_by_asc_def with_distance_def example_clip_row_def cosine_distance_def dot_example_axis
      example_clip_twins_def)

lemma example_clip_query_zero:
  "query_pipeline example_clip_txt cosine_distance ''dog'' (Some example_clip_zero) =
     (Inr [(example_clip_row 2 1 0 0, None), (example_clip_row 1 0 0 1, Some 0)],
      Some example_clip_zero)"
  by (simp add: query_pipeline_def example_clip_encode_text session_query_def limit_def
      order_by_asc_def with_distance_def example_clip_row_def cosine_distance_def dot_example_axis
      example_clip_zero_def)

text \<open>
  C5 as stated fails, in two ways. After the same image is ingested twice, two records
  share one embedding; a query vector equal to the embedding of the second returns the
  first of the two at the head (the two are at distance 0 from that query in any order, so
  whichever comes first the claim fails for the other). And where a stored embedding is
  the zero vector, its distance is NULL, which ascending order puts first: the query equal
  to the embedding of the other record returns the zero record first, at no distance.
\<close>

theorem cosine_round_trip_counterexample:
  "example_clip_row 2 1 0 1 \<in> set (rows example_clip_twins) \<and>
   embedding (example_clip_row 1 0 0 1) = embedding (example_clip_row 2 1 0 1) \<and>
   encode_text_to_embedding example_clip_txt ''dog'' = Inr (embedding (example_clip_row 2 1 0 1)) \<and>
   fst (query_pipeline example_clip_txt cosine_distance ''dog'' (Some example_clip_twins)) =
     Inr [(example_clip_row 1 0 0 1, Some 0), (example_clip_row 2 1 0 1, Some 0)] \<and>
   fst (hd [(example_clip_row 1 0 0 1, Some (0::real)), (example_clip_row 2 1 0 1, Some 0)])
     \<noteq> example_clip_row 2 1 0 1 \<and>
   example_clip_row 1 0 0 1 \<in> set (rows example_clip_zero) \<and>
   encode_text_to_embedding example_clip_txt ''dog'' = Inr (embedding (example_clip_row 1 0 0 1)) \<and>
   fst (query_pipeline example_clip_txt cosine_distance ''dog'' (Some example_clip_zero)) =
     Inr [(example_clip_row 2 1 0 0, None), (example_clip_row 1 0 0 1, Some 0)] \<and>
   fst (hd [(example_clip_row 2 1 0 0, None :: real option), (example_clip_row 1 0 0 1, Some 0)])
     \<noteq> example_clip_row 1 0 0 1 \<and>
   snd (hd [(example_clip_row 2 1 0 0, None :: real option), (example_clip_row 1 0 0 1, Some 0)])
     \<noteq> Some 0"
proof -
  have "example_clip_row 2 1 0 1 \<in> set (rows example_clip_twins)"
    and "example_clip_row 1 0 0 1 \<in> set (rows example_clip_zero)"
    by (simp_all add: example_clip_twins_def example_clip_zero_def)
  moreover have "embedding (example_clip_row 1 0 0 1) = example_axis 0 1"
    and "embedding (example_clip_row 2 1 0 1) = example_axis 0 1"
    by (simp_all add: example_clip_row_def)
  moreover have "example_clip_row 1 0 0 1 \<noteq> example_clip_row 2 1 0 1"
    and "example_clip_row 2 1 0 0 \<noteq> example_clip_row 1 0 0 1"
    by (simp_all add: example_clip_row_def)
  ultimately show ?thesis
    by (simp add: example_clip_query_twins example_clip_query_zero example_clip_encode_text)
qed

theorem cosine_round_trip_witness:
  "encode_text_to_embedding example_clip_txt ''dog'' = Inr (example_axis 0 1) \<and>
   example_clip_row 2 1 0 1 \<in> set (rows example_clip_table) \<and>
   embedding (example_clip_row 2 1 0 1) = example_axis 0 1 \<and>
   list_all (\<lambda>r'. dot (embedding r') (embedding r') \<noteq> 0) (rows example_clip_table) \<and>
   list_all (\<lambda>r'. r' = example_clip_row 2 1 0 1 \<or>
                    cosine_distance (embedding r') (example_axis 0 1) \<noteq> Some 0) (rows example_clip_table) \<and>
   (\<exists>p rs. query_pipeline example_clip_txt cosine_distance ''dog'' (Some example_clip_table) =
        (Inr (p # rs), Some example_clip_table) \<and>
      fst p = example_clip_row 2 1 0 1 \<and> snd p = Some 0)"
proof -
  have mem: "example_clip_row 2 1 0 1 \<in> set (rows example_clip_table)"
    by (simp add: example_clip_table_def)
  have emb: "embedding (example_clip_row 2 1 0 1) = example_axis 0 1"
    by (simp add: example_clip_row_def)
  have nz: "list_all (\<lambda>r'. dot (embedding r') (embedding r') \<noteq> 0) (rows example_clip_table)"
    by (simp add: example_clip_table_def example_clip_row_def dot_example_axis)
  have only': "list_all (\<lambda>r'. r' = example_clip_row 2 1 0 1 \<or>
      cosine_distance (embedding r') (example_axis 0 1) \<noteq> Some 0) (rows example_clip_table)"
    by (simp add: example_clip_table_def example_clip_row_def cosine_distance_def dot_example_axis)
  then have only: "\<forall>r' \<in> set (rows example_clip_table). r' \<noteq> example_clip_row 2 1 0 1 \<longrightarrow>
      cosine_distance (embedding r') (example_axis 0 1) \<noteq> Some 0"
    by (auto simp: list_all_iff)
  obtain res db' where pipe: "query_pipeline example_clip_txt cosine_distance ''dog'' (Some example_clip_table) = (res, db')"
    by (cases "query_pipeline example_clip_txt cosine_distance ''dog'' (Some example_clip_table)")
  from cosine_round_trip [OF example_clip_encode_text mem emb nz]
  have run: "query_run example_clip_txt cosine_distance ''dog'' (Some example_clip_table) (res, db')"
    and all: "\<And>res db'. query_run example_clip_txt cosine_distance ''dog'' (Some example_clip_table) (res, db') \<Longrightarrow>
            db' = Some example_clip_table \<and>
            (\<exists>p rs. res = Inr (p # rs) \<and> fst p \<in> set (rows example_clip_table) \<and> snd p = Some 0 \<and>
               ((\<forall>r' \<in> set (rows example_clip_table). r' \<noteq> example_clip_row 2 1 0 1 \<longrightarrow>
                    cosine_distance (embedding r') (example_axis 0 1) \<noteq> Some 0)
                  \<longrightarrow> fst p = example_clip_row 2 1 0 1))"
    unfolding pipe by blast+
  from all [OF run] only pipe
  have "\<exists>p rs. query_pipeline example_clip_txt cosine_distance ''dog'' (Some example_clip_table) =
        (Inr (p # rs), Some example_clip_table) \<and>
      fst p = example_clip_row 2 1 0 1 \<and> snd p = Some 0"
    by blast
  then show ?thesis using example_clip_encode_text mem emb nz only' by blast
qed

end
